theory Spec2Isabelle
  imports Main "HOL-Library.AList"
begin

section \<open>extract_microdroid_kernel_hashes.py\<close>

text \<open>
  A shallow embedding of \<^verbatim>\<open>service_vm/kernel/extract_microdroid_kernel_hashes.py\<close>.

  Python \<^verbatim>\<open>str\<close> is modelled by \<open>string\<close>; the text handled by the script (the output of
  avbtool and the generated Rust source) is ASCII, where characters and code points agree.
  A \<^verbatim>\<open>dict\<close> is an association list in insertion order with distinct keys: assigning to
  a key that is present replaces its value in place, assigning to a new key appends it,
  which is what \<open>AList.update\<close> does. An uncaught exception is a value \<open>Inl e\<close>.
  Standard output is the list of the arguments of the \<^verbatim>\<open>print\<close> calls made so far; every
  call writes its argument followed by a line break. Assertions are enabled (the script
  is not run under \<^verbatim>\<open>python -O\<close>).
\<close>

subsection \<open>Python values and built-ins\<close>

datatype py_error =
    IndexError
  | KeyError
  | OSError
  | UnicodeDecodeError
  | AssertionError string

type_synonym py_dict = "(string \<times> string) list"

text \<open>\<^verbatim>\<open>xs[i]\<close> for a non-negative index.\<close>

definition getitem_list :: "'a list \<Rightarrow> nat \<Rightarrow> py_error + 'a" where
  "getitem_list xs i = (if i < length xs then Inr (xs ! i) else Inl IndexError)"

text \<open>\<^verbatim>\<open>d[k]\<close>, \<^verbatim>\<open>d[k] = v\<close> and \<^verbatim>\<open>d.keys()\<close> (compared as a set).\<close>

definition getitem_dict :: "py_dict \<Rightarrow> string \<Rightarrow> py_error + string" where
  "getitem_dict d k = (case map_of d k of None \<Rightarrow> Inl KeyError | Some v \<Rightarrow> Inr v)"

definition setitem_dict :: "py_dict \<Rightarrow> string \<Rightarrow> string \<Rightarrow> py_dict" where
  "setitem_dict d k v = AList.update k v d"

definition keys :: "py_dict \<Rightarrow> string set" where
  "keys d = set (map fst d)"

text \<open>\<^verbatim>\<open>s.split(c)\<close> for a separator of one character: one more segment than separators.\<close>

fun split_on :: "char \<Rightarrow> string \<Rightarrow> string list" where
  "split_on c [] = [[]]"
| "split_on c (x # xs) =
     (let r = split_on c xs in if x = c then [] # r else (x # hd r) # tl r)"

text \<open>\<^verbatim>\<open>s.replace(" ", "")\<close>.\<close>

definition remove_spaces :: "string \<Rightarrow> string" where
  "remove_spaces s = filter (\<lambda>ch. ch \<noteq> CHR '' '') s"

text \<open>\<^verbatim>\<open>sep.join(xs)\<close>.\<close>

fun join :: "string \<Rightarrow> string list \<Rightarrow> string" where
  "join sep [] = []"
| "join sep [x] = x"
| "join sep (x # y # ys) = x @ sep @ join sep (y # ys)"

text \<open>\<^verbatim>\<open>s[i:j]\<close> for non-negative bounds; a slice is cut at the end of the string.\<close>

definition slice :: "string \<Rightarrow> nat \<Rightarrow> nat \<Rightarrow> string" where
  "slice s i j = take (j - i) (drop i s)"

text \<open>\<^verbatim>\<open>range(start, stop, step)\<close> for a positive step (the script's step is 2).\<close>

function range_step :: "nat \<Rightarrow> nat \<Rightarrow> nat \<Rightarrow> nat list" where
  "range_step start stop step =
     (if step = 0 \<or> stop \<le> start then []
      else start # range_step (start + step) stop step)"
  by pat_completeness auto
termination
  by (relation "measure (\<lambda>(start, stop, step). stop - start)") auto

declare range_step.simps [simp del]

subsection \<open>The child process\<close>

text \<open>
  What \<^verbatim>\<open>subprocess.Popen(...)\<close>, \<^verbatim>\<open>proc.communicate()\<close> and
  \<^verbatim>\<open>stdout.decode("utf-8")\<close> can give: the tool cannot be started (\<^verbatim>\<open>Popen\<close> raises an
  \<^verbatim>\<open>OSError\<close>), or it runs to its end with a return code and the bytes it wrote to its
  standard output and standard error, which either decode to a text or are not UTF-8.
  The environment is a function from the argument vector to this outcome.
\<close>

datatype proc_outcome =
    LaunchFailed
  | Exited int "string option"

subsection \<open>The script\<close>

definition PARTITION_NAME_BOOT :: string where
  "PARTITION_NAME_BOOT = ''boot''"

definition PARTITION_NAME_INITRD_NORMAL :: string where
  "PARTITION_NAME_INITRD_NORMAL = ''initrd_normal''"

definition PARTITION_NAME_INITRD_DEBUG :: string where
  "PARTITION_NAME_INITRD_DEBUG = ''initrd_debug''"

text \<open>\<^verbatim>\<open>format_hex_string\<close> (lines 64 to 70).\<close>

definition format_hex_string :: "string \<Rightarrow> py_error + string" where
  "format_hex_string hex_string =
     (if length hex_string mod 2 \<noteq> 0
      then Inl (AssertionError (''Hex string must have even length: '' @ hex_string))
      else Inr (join '', ''
        (map (\<lambda>i. if i mod 32 = 0 then ''\<newline>0x'' @ slice hex_string i (i + 2)
                   else ''0x'' @ slice hex_string i (i + 2))
             (range_step 0 (length hex_string) 2))))"

text \<open>The body of the loop of \<^verbatim>\<open>collect_hashes\<close> (lines 58 to 61), for one line.\<close>

definition parse_line :: "py_dict \<Rightarrow> string \<Rightarrow> py_dict" where
  "parse_line hashes line0 =
     (let line = split_on (CHR '':'') (remove_spaces line0)
      in if length line = 2
         then (let partition_name = line ! 0; hash = line ! 1
               in setitem_dict hashes partition_name hash)
         else hashes)"

text \<open>\<^verbatim>\<open>collect_hashes\<close> (lines 50 to 62). The return code is never read.\<close>

definition collect_hashes ::
  "(string list \<Rightarrow> proc_outcome) \<Rightarrow> string \<Rightarrow> string \<Rightarrow> py_error + py_dict" where
  "collect_hashes popen avbtool kernel_image_path =
     (case popen [avbtool, ''print_partition_digests'', ''--image'', kernel_image_path] of
        LaunchFailed \<Rightarrow> Inl OSError
      | Exited returncode stdout \<Rightarrow>
          (case stdout of
             None \<Rightarrow> Inl UnicodeDecodeError
           | Some text \<Rightarrow> Inr (foldl parse_line [] (split_on (CHR 0x0A) text))))"

text \<open>
  The test and the three assignments of lines 35 to 41 of \<^verbatim>\<open>main\<close>: the dictionary
  afterwards, and whether the branch was taken.
\<close>

definition expected_keys :: "string set" where
  "expected_keys =
     {PARTITION_NAME_BOOT, PARTITION_NAME_INITRD_NORMAL, PARTITION_NAME_INITRD_DEBUG}"

definition fallback_taken :: "py_dict \<Rightarrow> bool" where
  "fallback_taken hashes = (keys hashes \<noteq> expected_keys)"

definition fallback :: "py_dict \<Rightarrow> py_dict" where
  "fallback hashes =
     (if fallback_taken hashes
      then setitem_dict
             (setitem_dict
                (setitem_dict hashes PARTITION_NAME_BOOT '''')
                PARTITION_NAME_INITRD_NORMAL '''')
             PARTITION_NAME_INITRD_DEBUG ''''
      else hashes)"

definition header :: "string list" where
  "header =
     [''//! This file is generated by extract_microdroid_kernel_hashes.py.'',
      ''//! It contains the hashes of the kernel and initrds.\<newline>'',
      ''#![no_std]\<newline>#![allow(missing_docs)]\<newline>'']"

definition empty_comment :: string where
  "empty_comment = ''/// The kernel is empty, no hashes are available.''"

text \<open>
  \<^verbatim>\<open>main\<close> (lines 23 to 48): what was printed, and how the call ended. The argument of a
  \<^verbatim>\<open>print\<close> is evaluated before anything of it is written, so a failing
  \<^verbatim>\<open>format_hex_string\<close> leaves the earlier prints only.
\<close>

definition main ::
  "string list \<Rightarrow> (string list \<Rightarrow> proc_outcome) \<Rightarrow> string list \<times> (py_error + unit)" where
  "main args popen =
     (case getitem_list args 0 of Inl e \<Rightarrow> ([], Inl e) | Inr avbtool \<Rightarrow>
     (case getitem_list args 1 of Inl e \<Rightarrow> ([], Inl e) | Inr kernel_image_path \<Rightarrow>
     (case collect_hashes popen avbtool kernel_image_path of
        Inl e \<Rightarrow> ([], Inl e)
      | Inr hashes0 \<Rightarrow>
     (let out1 = header @ (if fallback_taken hashes0 then [empty_comment] else []);
          hashes = fallback hashes0
      in
     (case getitem_dict hashes PARTITION_NAME_BOOT of Inl e \<Rightarrow> (out1, Inl e) | Inr h1 \<Rightarrow>
     (case format_hex_string h1 of Inl e \<Rightarrow> (out1, Inl e) | Inr f1 \<Rightarrow>
     (let out2 = out1 @ [''pub const KERNEL_HASH: &[u8] = &['' @ f1 @ ''];\<newline>'']
      in
     (case getitem_dict hashes PARTITION_NAME_INITRD_NORMAL of
        Inl e \<Rightarrow> (out2, Inl e) | Inr h2 \<Rightarrow>
     (case format_hex_string h2 of Inl e \<Rightarrow> (out2, Inl e) | Inr f2 \<Rightarrow>
     (let out3 = out2 @ [''pub const INITRD_NORMAL_HASH: &[u8] = &['' @ f2 @ ''];\<newline>'']
      in
     (case getitem_dict hashes PARTITION_NAME_INITRD_DEBUG of
        Inl e \<Rightarrow> (out3, Inl e) | Inr h3 \<Rightarrow>
     (case format_hex_string h3 of Inl e \<Rightarrow> (out3, Inl e) | Inr f3 \<Rightarrow>
        (out3 @ [''pub const INITRD_DEBUG_HASH: &[u8] = &['' @ f3 @ ''];''],
         Inr ())))))))))))))"

text \<open>The text on standard output, and the exit status of the interpreter.\<close>

definition stdout_text :: "string list \<Rightarrow> string" where
  "stdout_text prints = concat (map (\<lambda>s. s @ ''\<newline>'') prints)"

definition exit_status :: "py_error + unit \<Rightarrow> int" where
  "exit_status r = (case r of Inl e \<Rightarrow> 1 | Inr u \<Rightarrow> 0)"

subsection \<open>Notions used to state the properties\<close>

text \<open>
  The byte literal of the \<open>k\<close>-th pair of characters of \<open>h\<close>, and the index in the
  formatter's result at which that literal starts: every literal has four characters,
  every separator two, and one line break precedes each of the literals
  \<open>0, 16, \<dots>, 16 * (k div 16)\<close>.
\<close>

definition byte_token :: "string \<Rightarrow> nat \<Rightarrow> string" where
  "byte_token h k = ''0x'' @ [h ! (2 * k), h ! (2 * k + 1)]"

definition token_pos :: "nat \<Rightarrow> nat" where
  "token_pos k = 6 * k + k div 16 + 1"

text \<open>The \<open>k\<close>-th element of the list that is joined, and the join of the first \<open>m\<close>.\<close>

definition line_token :: "string \<Rightarrow> nat \<Rightarrow> string" where
  "line_token h k = (if k mod 16 = 0 then ''\<newline>'' else '''') @ byte_token h k"

definition rendered :: "string \<Rightarrow> nat \<Rightarrow> string" where
  "rendered h m = join '', '' (map (line_token h) [0..<m])"

text \<open>
  The line parser as the specification words it, to be compared with \<open>parse_line\<close>: the
  specification removes \<^emph>\<open>all whitespace\<close> from the line before it splits it at the
  colons, where line 58 of the script removes the character \<^verbatim>\<open>" "\<close> only.
\<close>

definition is_whitespace :: "char \<Rightarrow> bool" where
  "is_whitespace ch =
     (ch \<in> set [CHR '' '', CHR 0x09, CHR 0x0A, CHR 0x0B, CHR 0x0C, CHR 0x0D])"

definition remove_whitespace :: "string \<Rightarrow> string" where
  "remove_whitespace s = filter (\<lambda>ch. \<not> is_whitespace ch) s"

definition parse_line_spec :: "py_dict \<Rightarrow> string \<Rightarrow> py_dict" where
  "parse_line_spec hashes line0 =
     (let line = split_on (CHR '':'') (remove_whitespace line0)
      in if length line = 2 then setitem_dict hashes (line ! 0) (line ! 1) else hashes)"

section \<open>Properties\<close>

lemmas partition_names =
  PARTITION_NAME_BOOT_def PARTITION_NAME_INITRD_NORMAL_def PARTITION_NAME_INITRD_DEBUG_def

subsection \<open>Ranges, slices and joins\<close>

lemma range_step_2: "range_step s n 2 = map (\<lambda>k. s + 2 * k) [0..<(n - s + 1) div 2]"
proof (induction s n "2::nat" rule: range_step.induct)
  case (1 start stop)
  show ?case
  proof (cases "stop \<le> start")
    case True
    then show ?thesis by (simp add: range_step.simps)
  next
    case False
    then have m: "(stop - start + 1) div 2 = Suc ((stop - (start + 2) + 1) div 2)"
      by arith
    have "range_step start stop 2 = start # range_step (start + 2) stop 2"
      using False by (subst range_step.simps) simp
    also have "\<dots> = start # map (\<lambda>k. start + 2 + 2 * k) [0..<(stop - (start + 2) + 1) div 2]"
      using 1 False by simp
    also have "\<dots> = map (\<lambda>k. start + 2 * k) [0..<Suc ((stop - (start + 2) + 1) div 2)]"
      by (simp add: upt_conv_Cons map_Suc_upt [symmetric] del: upt_Suc)
    finally show ?thesis using m by simp
  qed
qed

lemma slice_pair:
  assumes "2 * k + 1 < length h"
  shows "slice h (2 * k) (2 * k + 2) = [h ! (2 * k), h ! (2 * k + 1)]"
proof -
  have "drop (2 * k) h = h ! (2 * k) # h ! (Suc (2 * k)) # drop (Suc (Suc (2 * k))) h"
    using assms by (simp add: Cons_nth_drop_Suc)
  then show ?thesis by (simp add: slice_def)
qed

lemma range_step_even:
  assumes "even n"
  shows "range_step 0 n 2 = map (\<lambda>k. 2 * k) [0..<n div 2]"
proof -
  have "(n - 0 + 1) div 2 = n div 2" using assms by presburger
  then show ?thesis using range_step_2 [of 0 n] by simp
qed

lemma fmt_tokens:
  assumes "even (length h)"
  shows "format_hex_string h =
    Inr (join '', '' (map (\<lambda>k. (if k mod 16 = 0 then ''\<newline>'' else '''') @ ''0x'' @ [h ! (2 * k), h ! (2 * k + 1)])
        [0..<length h div 2]))"
proof -
  have tok: "(if 2 * k mod 32 = 0 then ''\<newline>0x'' @ slice h (2 * k) (2 * k + 2)
              else ''0x'' @ slice h (2 * k) (2 * k + 2))
           = (if k mod 16 = 0 then ''\<newline>'' else '''') @ ''0x'' @ [h ! (2 * k), h ! (2 * k + 1)]"
    if "k < length h div 2" for k
  proof -
    from that assms have "2 * k + 1 < length h" by presburger
    then have s: "slice h (2 * k) (2 * k + 2) = [h ! (2 * k), h ! (2 * k + 1)]" by (rule slice_pair)
    have m: "(2 * k mod 32 = 0) = (k mod 16 = 0)" by presburger
    show ?thesis unfolding s m by simp
  qed
  have "map (\<lambda>i. if i mod 32 = 0 then ''\<newline>0x'' @ slice h i (i + 2) else ''0x'' @ slice h i (i + 2))
           (range_step 0 (length h) 2)
      = map (\<lambda>k. (if k mod 16 = 0 then ''\<newline>'' else '''') @ ''0x'' @ [h ! (2 * k), h ! (2 * k + 1)])
           [0..<length h div 2]"
    unfolding range_step_even [OF assms] map_map comp_def
    by (rule map_cong [OF refl]) (simp add: tok)
  then show ?thesis using assms by (simp add: format_hex_string_def)
qed

subsection \<open>Positions in the formatter's result\<close>

lemma join_snoc: "xs \<noteq> [] \<Longrightarrow> join sep (xs @ [x]) = join sep xs @ sep @ x"
  by (induction sep xs rule: join.induct) auto

lemma rendered_0: "rendered h 0 = []"
  by (simp add: rendered_def)

lemma rendered_1: "rendered h (Suc 0) = line_token h 0"
  by (simp add: rendered_def)

lemma rendered_Suc: "0 < m \<Longrightarrow> rendered h (Suc m) = rendered h m @ '', '' @ line_token h m"
  by (simp add: rendered_def join_snoc)

lemma length_line_token: "length (line_token h k) = (if k mod 16 = 0 then 5 else 4)"
  by (simp add: line_token_def byte_token_def)

lemma token_pos_Suc:
  "token_pos (Suc k) = token_pos k + 6 + (if Suc k mod 16 = 0 then 1 else 0)"
  by (simp add: token_pos_def div_Suc)

lemma length_rendered: "length (rendered h (Suc k)) = token_pos k + 4"
proof (induction k)
  case 0
  show ?case by (simp add: rendered_1 length_line_token token_pos_def)
next
  case (Suc k)
  have "length (rendered h (Suc (Suc k))) =
      length (rendered h (Suc k)) + 2 + (if Suc k mod 16 = 0 then 5 else 4)"
    by (simp add: rendered_Suc length_line_token)
  then show ?case unfolding Suc token_pos_Suc by simp
qed

lemma token_pos_rendered:
  assumes "0 < m"
  shows "token_pos m = length (rendered h m) + 2 + (if m mod 16 = 0 then 1 else 0)"
proof -
  from assms obtain k where m: "m = Suc k" by (cases m) auto
  show ?thesis unfolding m length_rendered token_pos_Suc by simp
qed

lemma token_pos_mono: "k < m \<Longrightarrow> token_pos k + 6 \<le> token_pos m"
proof -
  assume "k < m"
  then have "k div 16 \<le> m div 16" by (simp add: div_le_mono)
  then show ?thesis using \<open>k < m\<close> by (simp add: token_pos_def)
qed

lemma token_pos_bound: "token_pos k + 4 = length (rendered h (Suc k))"
  by (simp add: length_rendered)

lemma length_rendered_mono: "k \<le> m \<Longrightarrow> length (rendered h k) \<le> length (rendered h m)"
proof (induction m)
  case 0
  then show ?case by simp
next
  case (Suc m)
  then show ?case
    by (cases "m = 0") (auto simp: le_Suc_eq rendered_Suc rendered_0)
qed

lemma token_in_rendered:
  "k < m \<Longrightarrow> take 4 (drop (token_pos k) (rendered h m)) = byte_token h k"
proof (induction m)
  case 0
  then show ?case by simp
next
  case (Suc m)
  show ?case
  proof (cases "k = m")
    case True
    show ?thesis
    proof (cases "m = 0")
      case True
      with \<open>k = m\<close> show ?thesis
        by (simp add: rendered_1 line_token_def token_pos_def byte_token_def)
    next
      case False
      then have "token_pos m = length (rendered h m) + 2 + (if m mod 16 = 0 then 1 else 0)"
        using token_pos_rendered by simp
      with False \<open>k = m\<close> show ?thesis
        by (simp add: rendered_Suc line_token_def byte_token_def)
    qed
  next
    case False
    with Suc.prems have km: "k < m" by simp
    then have m: "0 < m" by simp
    have "token_pos k + 4 \<le> length (rendered h m)"
      using km token_pos_bound [of k h] length_rendered_mono [of "Suc k" m h] by simp
    then show ?thesis using Suc.IH [OF km] m by (simp add: rendered_Suc)
  qed
qed

lemma line_token_nth:
  assumes "h ! (2 * k) \<noteq> CHR 0x0A" "h ! (2 * k + 1) \<noteq> CHR 0x0A" "q < length (line_token h k)"
  shows "(line_token h k ! q = CHR 0x0A) = (k mod 16 = 0 \<and> q = 0)"
  using assms by (auto simp: line_token_def byte_token_def nth_Cons' split: if_splits)

lemma sep_token_nth:
  assumes "h ! (2 * k) \<noteq> CHR 0x0A" "h ! (2 * k + 1) \<noteq> CHR 0x0A" "q < 2 + length (line_token h k)"
  shows "(('', '' @ line_token h k) ! q = CHR 0x0A) = (k mod 16 = 0 \<and> q = 2)"
proof (cases "q < 2")
  case True
  then show ?thesis by (auto simp: nth_Cons')
next
  case False
  then have "('', '' @ line_token h k) ! q = line_token h k ! (q - 2)"
    by (simp add: nth_append numeral_2_eq_2)
  moreover have "(line_token h k ! (q - 2) = CHR 0x0A) = (k mod 16 = 0 \<and> q - 2 = 0)"
    using assms False by (intro line_token_nth) auto
  ultimately show ?thesis using False by auto
qed

lemma newline_in_rendered:
  assumes "CHR 0x0A \<notin> set h" "2 * m \<le> length h" "p < length (rendered h m)"
  shows "(rendered h m ! p = CHR 0x0A) = (\<exists>k<m. k mod 16 = 0 \<and> Suc p = token_pos k)"
  using assms(2,3)
proof (induction m)
  case 0
  then show ?case by (simp add: rendered_0)
next
  case (Suc m)
  have c1: "h ! (2 * m) \<noteq> CHR 0x0A" and c2: "h ! (2 * m + 1) \<noteq> CHR 0x0A"
    using assms(1) Suc.prems(1) by (auto simp: in_set_conv_nth)
  show ?case
  proof (cases "m = 0")
    case True
    have "(line_token h 0 ! p = CHR 0x0A) = (p = 0)"
      using line_token_nth [of h 0 p] c1 c2 Suc.prems True by (simp add: rendered_1)
    then show ?thesis using True by (auto simp: rendered_1 token_pos_def)
  next
    case False
    then have m: "0 < m" by simp
    have tp: "token_pos m = length (rendered h m) + 2 + (if m mod 16 = 0 then 1 else 0)"
      using token_pos_rendered [OF m] .
    have before: "token_pos k + 4 \<le> length (rendered h m)" if "k < m" for k
      using that token_pos_bound [of k h] length_rendered_mono [of "Suc k" m h] by simp
    show ?thesis
    proof (cases "p < length (rendered h m)")
      case True
      then have "(rendered h m ! p = CHR 0x0A) = (\<exists>k<m. k mod 16 = 0 \<and> Suc p = token_pos k)"
        using Suc by simp
      moreover have "Suc p \<noteq> token_pos m" using tp True by simp
      ultimately show ?thesis using True m
        by (auto simp: rendered_Suc nth_append less_Suc_eq)
    next
      case False
      define q where "q = p - length (rendered h m)"
      have p: "p = length (rendered h m) + q" using False by (simp add: q_def)
      have q: "q < 2 + length (line_token h m)"
        using Suc.prems(2) m by (simp add: p rendered_Suc)
      have "rendered h (Suc m) ! p = ('', '' @ line_token h m) ! q"
        using m by (simp add: p rendered_Suc nth_append)
      then have "(rendered h (Suc m) ! p = CHR 0x0A) = (m mod 16 = 0 \<and> q = 2)"
        using sep_token_nth [OF c1 c2 q] by simp
      moreover have "(\<exists>k<Suc m. k mod 16 = 0 \<and> Suc p = token_pos k) = (m mod 16 = 0 \<and> q = 2)"
      proof -
        have "\<not> (k < m \<and> Suc p = token_pos k)" for k
          using before [of k] p by auto
        then have "(\<exists>k<Suc m. k mod 16 = 0 \<and> Suc p = token_pos k) = (m mod 16 = 0 \<and> Suc p = token_pos m)"
          by (auto simp: less_Suc_eq)
        also have "\<dots> = (m mod 16 = 0 \<and> q = 2)" using tp p by auto
        finally show ?thesis .
      qed
      ultimately show ?thesis by simp
    qed
  qed
qed

subsection \<open>The hex formatter\<close>

text \<open>
  C8: \<^verbatim>\<open>format_hex_string("")\<close> raises nothing and returns the empty string: there is no
  byte token in it.
\<close>

theorem format_hex_string_empty: "format_hex_string '''' = Inr ''''"
  by (simp add: format_hex_string_def range_step.simps)

lemma filter_join: "filter P (join sep xs) = join (filter P sep) (map (filter P) xs)"
  by (induction sep xs rule: join.induct) auto

lemma format_hex_string_rendered:
  "even (length h) \<Longrightarrow> format_hex_string h = Inr (rendered h (length h div 2))"
  using fmt_tokens [of h] by (simp add: rendered_def line_token_def [abs_def] byte_token_def)

lemma no_newline_pair:
  assumes "CHR 0x0A \<notin> set h" "even (length h)" "k < length h div 2"
  shows "h ! (2 * k) \<noteq> CHR 0x0A" "h ! (2 * k + 1) \<noteq> CHR 0x0A"
proof -
  from assms(2,3) have "2 * k + 1 < length h" by presburger
  then have "h ! (2 * k) \<in> set h" "h ! (2 * k + 1) \<in> set h" by simp_all
  with assms(1) show "h ! (2 * k) \<noteq> CHR 0x0A" "h ! (2 * k + 1) \<noteq> CHR 0x0A" by auto
qed

text \<open>
  C5: for a string \<open>h\<close> of even length, \<^verbatim>\<open>format_hex_string\<close> returns the join with
  \<^verbatim>\<open>", "\<close> of exactly \<open>length h div 2\<close> tokens, in the order of the pairs; the \<open>k\<close>-th
  token is \<^verbatim>\<open>0x\<close> followed by the characters \<open>h[2k]\<close> and \<open>h[2k+1]\<close>, preceded by a
  line break when \<open>k\<close> is a multiple of 16 (the layout that C6 is about). When \<open>h\<close> has no
  line break of its own, the result without its line breaks is the join of the bare
  byte literals.
\<close>

theorem format_hex_string_tokens:
  assumes "even (length h)"
  shows "format_hex_string h =
           Inr (join '', ''
             (map (\<lambda>k. (if k mod 16 = 0 then ''\<newline>'' else '''') @ byte_token h k)
                  [0..<length h div 2]))
       \<and> (CHR 0x0A \<notin> set h \<longrightarrow>
            (\<exists>out. format_hex_string h = Inr out
               \<and> filter (\<lambda>ch. ch \<noteq> CHR 0x0A) out =
                   join '', '' (map (byte_token h) [0..<length h div 2])))"
proof (intro conjI impI)
  show a: "format_hex_string h =
           Inr (join '', ''
             (map (\<lambda>k. (if k mod 16 = 0 then ''\<newline>'' else '''') @ byte_token h k)
                  [0..<length h div 2]))"
    using fmt_tokens [OF assms] by (simp add: byte_token_def)
  assume nl: "CHR 0x0A \<notin> set h"
  have mp: "map (filter (\<lambda>ch. ch \<noteq> CHR 0x0A))
          (map (\<lambda>k. (if k mod 16 = 0 then ''\<newline>'' else '''') @ byte_token h k)
               [0..<length h div 2])
      = map (byte_token h) [0..<length h div 2]"
    unfolding map_map comp_def
  proof (rule map_cong [OF refl])
    fix k assume "k \<in> set [0..<length h div 2]"
    then have k: "k < length h div 2" by simp
    show "filter (\<lambda>ch. ch \<noteq> CHR 0x0A)
            ((if k mod 16 = 0 then ''\<newline>'' else '''') @ byte_token h k) = byte_token h k"
      using no_newline_pair [OF nl assms k] by (simp add: byte_token_def)
  qed
  have eq: "filter (\<lambda>ch. ch \<noteq> CHR 0x0A)
          (join '', ''
             (map (\<lambda>k. (if k mod 16 = 0 then ''\<newline>'' else '''') @ byte_token h k)
                  [0..<length h div 2]))
      = join '', '' (map (byte_token h) [0..<length h div 2])"
    unfolding filter_join mp by simp
  show "\<exists>out. format_hex_string h = Inr out
               \<and> filter (\<lambda>ch. ch \<noteq> CHR 0x0A) out =
                   join '', '' (map (byte_token h) [0..<length h div 2])"
    using a eq by blast
qed

text \<open>The theorem at the three bytes \<^verbatim>\<open>aa11Bc\<close>.\<close>

theorem format_hex_string_tokens_witness:
  "even (length ''aa11Bc'')
   \<and> format_hex_string ''aa11Bc'' = Inr ''\<newline>0xaa, 0x11, 0xBc''
   \<and> CHR 0x0A \<notin> set ''aa11Bc''
   \<and> filter (\<lambda>ch. ch \<noteq> CHR 0x0A) ''\<newline>0xaa, 0x11, 0xBc'' = ''0xaa, 0x11, 0xBc''"
  using format_hex_string_tokens [of "''aa11Bc''"]
  by (simp add: byte_token_def upt_rec)

text \<open>
  C6: for a string \<open>h\<close> of even length without line breaks of its own (a hex string has
  none), the result of \<^verbatim>\<open>format_hex_string\<close> has a line break at index \<open>p\<close> exactly when
  \<open>p + 1\<close> is the index at which the literal of a byte \<open>k\<close> with \<open>k mod 16 = 0\<close> starts,
  and the literal of every byte \<open>k\<close> stands at \<open>token_pos k\<close>: a line break immediately
  before the token of each byte whose position is a multiple of 16 (every 32 characters
  of \<open>h\<close>, position 0 included) and nowhere else.
\<close>

theorem format_hex_string_line_breaks:
  assumes "even (length h)" and "CHR 0x0A \<notin> set h"
  shows "\<exists>out. format_hex_string h = Inr out
     \<and> (\<forall>p<length out.
           (out ! p = CHR 0x0A) = (\<exists>k<length h div 2. k mod 16 = 0 \<and> Suc p = token_pos k))
     \<and> (\<forall>k<length h div 2. take 4 (drop (token_pos k) out) = byte_token h k)"
proof -
  have len: "2 * (length h div 2) \<le> length h" by simp
  show ?thesis
    unfolding format_hex_string_rendered [OF assms(1)]
    using newline_in_rendered [OF assms(2) len] token_in_rendered [of _ "length h div 2" h]
    by simp
qed

text \<open>
  The theorem at a string of 18 bytes: the result has 108 characters, line breaks at the
  indices 0 and 97 (before the bytes 0 and 16), none at index 5, and the literal of
  byte 16 at index 98.
\<close>

theorem format_hex_string_line_breaks_witness:
  "even (length ''000102030405060708090a0b0c0d0e0f1011'')
   \<and> CHR 0x0A \<notin> set ''000102030405060708090a0b0c0d0e0f1011''
   \<and> (\<exists>out. format_hex_string ''000102030405060708090a0b0c0d0e0f1011'' = Inr out
        \<and> length out = 108
        \<and> out ! 0 = CHR 0x0A \<and> out ! 97 = CHR 0x0A \<and> out ! 5 \<noteq> CHR 0x0A
        \<and> take 4 (drop 98 out) = ''0x10'')"
proof -
  let ?h = "''000102030405060708090a0b0c0d0e0f1011''"
  have e: "even (length ?h)" by simp
  have n: "CHR 0x0A \<notin> set ?h" by simp
  have m: "length ?h div 2 = 18" by simp
  from format_hex_string_line_breaks [OF e n]
  obtain out where o: "format_hex_string ?h = Inr out"
    and nl: "\<forall>p<length out.
               (out ! p = CHR 0x0A) = (\<exists>k<length ?h div 2. k mod 16 = 0 \<and> Suc p = token_pos k)"
    and tk: "\<forall>k<length ?h div 2. take 4 (drop (token_pos k) out) = byte_token ?h k"
    by blast
  have p0: "token_pos 0 = 1" and p16: "token_pos 16 = 98" and p17: "token_pos 17 = 104"
    by (simp_all add: token_pos_def)
  have "length (rendered ?h (Suc 17)) = token_pos 17 + 4"
    by (rule length_rendered)
  then have l: "length out = 108"
    using o unfolding format_hex_string_rendered [OF e] m p17 by simp
  have "\<exists>k<length ?h div 2. k mod 16 = 0 \<and> Suc 0 = token_pos k"
    unfolding m using p0 by (intro exI [of _ 0]) simp
  then have a: "out ! 0 = CHR 0x0A" using nl l by simp
  have "\<exists>k<length ?h div 2. k mod 16 = 0 \<and> Suc 97 = token_pos k"
    unfolding m using p16 by (intro exI [of _ 16]) simp
  then have b: "out ! 97 = CHR 0x0A" using nl l by simp
  have "\<not> (\<exists>k<length ?h div 2. k mod 16 = 0 \<and> Suc 5 = token_pos k)"
    unfolding m
  proof
    assume "\<exists>k<18. k mod 16 = 0 \<and> Suc 5 = token_pos k"
    then obtain k where "Suc 5 = token_pos k" by blast
    then have "6 * k + k div 16 = 5" by (simp add: token_pos_def)
    then show False by (cases k) auto
  qed
  then have c: "out ! 5 \<noteq> CHR 0x0A" using nl l by simp
  have d: "take 4 (drop 98 out) = ''0x10''"
    using tk [rule_format, of 16] p16 by (simp add: byte_token_def)
  show ?thesis using e n o l a b c d by blast
qed

text \<open>
  C7: \<^verbatim>\<open>format_hex_string\<close> ends in the \<^verbatim>\<open>AssertionError\<close> with the message of line 67
  exactly when its argument has odd length; it raises nothing else, and it returns a
  string exactly when the length is even. The error is the result of the whole call:
  there is no string returned beside it.
\<close>

theorem format_hex_string_assertion:
  "(format_hex_string h =
      Inl (AssertionError (''Hex string must have even length: '' @ h))) = odd (length h)
   \<and> (\<exists>e. format_hex_string h = Inl e) = odd (length h)
   \<and> (\<exists>out. format_hex_string h = Inr out) = even (length h)"
  by (auto simp: format_hex_string_def)

text \<open>The theorem at \<^verbatim>\<open>abc\<close>.\<close>

theorem format_hex_string_assertion_witness:
  "format_hex_string ''abc'' = Inl (AssertionError ''Hex string must have even length: abc'')
   \<and> odd (length ''abc'')"
  using format_hex_string_assertion [of "''abc''"] by simp

subsection \<open>The digest collector\<close>

text \<open>
  C10: a line made of a single colon, with or without spaces around it, splits into two
  empty segments and is accepted: the empty partition name is assigned the empty digest.
  A tool that prints just this line gives the dictionary with that one entry.
\<close>

theorem collect_hashes_lone_colon:
  "parse_line hashes '':'' = setitem_dict hashes '''' ''''
   \<and> parse_line hashes '' : '' = setitem_dict hashes '''' ''''
   \<and> collect_hashes (\<lambda>argv. Exited returncode (Some '':'')) avbtool kernel_image_path
       = Inr [('''', '''')]"
  by (simp add: parse_line_def remove_spaces_def collect_hashes_def setitem_dict_def)

subsection \<open>Splitting a line at its colons\<close>

lemma split_on_not_Nil: "split_on c s \<noteq> []"
  by (induction s) (auto simp: Let_def)

lemma length_split_on: "length (split_on c s) = Suc (count_list s c)"
proof (induction s)
  case Nil
  show ?case by simp
next
  case (Cons x xs)
  have "length (tl (split_on c xs)) = count_list xs c"
    using Cons by simp
  then show ?case using Cons by (simp add: Let_def)
qed

lemma split_on_no_sep: "c \<notin> set s \<Longrightarrow> split_on c s = [s]"
  by (induction s) (auto simp: Let_def)

lemma split_on_first:
  "split_on c s =
     takeWhile (\<lambda>x. x \<noteq> c) s #
     (case dropWhile (\<lambda>x. x \<noteq> c) s of [] \<Rightarrow> [] | y # rest \<Rightarrow> split_on c rest)"
proof (induction s)
  case Nil
  show ?case by simp
next
  case (Cons x xs)
  show ?case
  proof (cases "x = c")
    case True
    then show ?thesis by (simp add: Let_def)
  next
    case False
    then show ?thesis using Cons by (simp add: Let_def)
  qed
qed

lemma count_list_0_iff: "(count_list s c = 0) = (c \<notin> set s)"
  by (induction s) auto

lemma split_on_one_sep:
  assumes "count_list s c = 1"
  shows "split_on c s = [takeWhile (\<lambda>x. x \<noteq> c) s, tl (dropWhile (\<lambda>x. x \<noteq> c) s)]"
proof -
  have "c \<in> set s" using assms count_list_0_iff [of s c] by auto
  then obtain rest where d: "dropWhile (\<lambda>x. x \<noteq> c) s = c # rest"
    by (metis (mono_tags, lifting) dropWhile_eq_Nil_conv hd_dropWhile list.collapse)
  have "s = takeWhile (\<lambda>x. x \<noteq> c) s @ c # rest"
    using d takeWhile_dropWhile_id [of "\<lambda>x. x \<noteq> c" s] by simp
  then have "count_list s c = count_list (takeWhile (\<lambda>x. x \<noteq> c) s) c + 1 + count_list rest c"
    by (metis count_list_append count_list.simps(2) add.assoc add.commute)
  then have "count_list rest c = 0" using assms by simp
  then have "split_on c rest = [rest]"
    by (simp add: count_list_0_iff split_on_no_sep)
  then show ?thesis using split_on_first [of c s] d by simp
qed

lemma count_list_filter: "P c \<Longrightarrow> count_list (filter P s) c = count_list s c"
  by (induction s) auto

lemma takeWhile_filter:
  "(\<And>x. \<not> P x \<Longrightarrow> Q x) \<Longrightarrow> takeWhile P (filter Q s) = filter Q (takeWhile P s)"
  by (induction s) auto

lemma dropWhile_filter:
  "(\<And>x. \<not> P x \<Longrightarrow> Q x) \<Longrightarrow> dropWhile P (filter Q s) = filter Q (dropWhile P s)"
  by (induction s) auto

lemma tl_filter_dropWhile:
  assumes "Q c"
  shows "tl (filter Q (dropWhile (\<lambda>x. x \<noteq> c) s)) = filter Q (tl (dropWhile (\<lambda>x. x \<noteq> c) s))"
proof (cases "dropWhile (\<lambda>x. x \<noteq> c) s")
  case Nil
  show ?thesis unfolding Nil by simp
next
  case (Cons y rest)
  then have "y = c" using hd_dropWhile [of "\<lambda>x. x \<noteq> c" s] by auto
  with assms show ?thesis unfolding Cons by simp
qed

lemma count_colon_remove_spaces:
  "count_list (remove_spaces s) (CHR '':'') = count_list s (CHR '':'')"
  by (simp add: remove_spaces_def count_list_filter)

lemma parse_line_eq:
  "parse_line hashes line =
     (if count_list line (CHR '':'') = 1
      then setitem_dict hashes
             (remove_spaces (takeWhile (\<lambda>ch. ch \<noteq> CHR '':'') line))
             (remove_spaces (tl (dropWhile (\<lambda>ch. ch \<noteq> CHR '':'') line)))
      else hashes)"
proof (cases "count_list line (CHR '':'') = 1")
  case True
  then have "count_list (remove_spaces line) (CHR '':'') = 1"
    by (simp add: count_colon_remove_spaces)
  then have "split_on (CHR '':'') (remove_spaces line) =
      [takeWhile (\<lambda>x. x \<noteq> CHR '':'') (remove_spaces line),
       tl (dropWhile (\<lambda>x. x \<noteq> CHR '':'') (remove_spaces line))]"
    by (rule split_on_one_sep)
  also have "takeWhile (\<lambda>x. x \<noteq> CHR '':'') (remove_spaces line) =
      remove_spaces (takeWhile (\<lambda>ch. ch \<noteq> CHR '':'') line)"
    unfolding remove_spaces_def by (rule takeWhile_filter) simp
  also have "tl (dropWhile (\<lambda>x. x \<noteq> CHR '':'') (remove_spaces line)) =
      remove_spaces (tl (dropWhile (\<lambda>ch. ch \<noteq> CHR '':'') line))"
    unfolding remove_spaces_def
    by (subst dropWhile_filter) (simp_all add: tl_filter_dropWhile)
  finally show ?thesis using True by (simp add: parse_line_def)
next
  case False
  then show ?thesis
    by (simp add: parse_line_def length_split_on count_colon_remove_spaces)
qed

lemma foldl_parse_line_filter:
  "foldl parse_line hashes ls =
   foldl parse_line hashes (filter (\<lambda>l. count_list l (CHR '':'') = 1) ls)"
  by (induction ls arbitrary: hashes) (simp_all add: parse_line_eq)

text \<open>
  C3, as the script has it: the line without its space characters (the character
  \<^verbatim>\<open>" "\<close> only; tabs, carriage returns and other whitespace stay) splits at \<^verbatim>\<open>":"\<close>
  into exactly two segments if and only if the line has exactly one colon. Then the loop
  body assigns to the name before the colon the digest after it, both without their
  spaces; otherwise it leaves the dictionary as it is. So the loop over the lines gives
  what it gives on the lines with exactly two segments alone: every other line is ignored.
\<close>

theorem parse_line_one_colon:
  "(length (split_on (CHR '':'') (remove_spaces line)) = 2) = (count_list line (CHR '':'') = 1)
   \<and> parse_line hashes line =
       (if length (split_on (CHR '':'') (remove_spaces line)) = 2
        then setitem_dict hashes
               (remove_spaces (takeWhile (\<lambda>ch. ch \<noteq> CHR '':'') line))
               (remove_spaces (tl (dropWhile (\<lambda>ch. ch \<noteq> CHR '':'') line)))
        else hashes)
   \<and> foldl parse_line hashes ls =
       foldl parse_line hashes
         (filter (\<lambda>l. length (split_on (CHR '':'') (remove_spaces l)) = 2) ls)"
proof -
  have a: "(length (split_on (CHR '':'') (remove_spaces l)) = 2) = (count_list l (CHR '':'') = 1)"
    for l
    by (simp add: length_split_on count_colon_remove_spaces)
  show ?thesis unfolding a
    using parse_line_eq [of hashes line] foldl_parse_line_filter [of hashes ls] by simp
qed

text \<open>
  The theorem at a digest line, at a header that ends in a colon (accepted, with an
  empty digest), at lines with two colons and with none, and at a loop over four lines
  in which the later digest of \<^verbatim>\<open>boot\<close> wins.
\<close>

theorem parse_line_one_colon_witness:
  "parse_line [] ''initrd_normal: bb 22'' = [(''initrd_normal'', ''bb22'')]
   \<and> parse_line [(''boot'', ''aa'')] ''Partitions:'' = [(''boot'', ''aa''), (''Partitions'', '''')]
   \<and> parse_line [(''boot'', ''aa'')] ''a:b:c'' = [(''boot'', ''aa'')]
   \<and> parse_line [(''boot'', ''aa'')] ''no colon'' = [(''boot'', ''aa'')]
   \<and> foldl parse_line [] [''x'', ''boot: aa11'', '''', ''boot: cc'']  = [(''boot'', ''cc'')]"
  using parse_line_one_colon [of "''initrd_normal: bb 22''" "[]" "[]"]
    parse_line_one_colon [of "''Partitions:''" "[(''boot'', ''aa'')]" "[]"]
    parse_line_one_colon [of "''a:b:c''" "[(''boot'', ''aa'')]" "[]"]
    parse_line_one_colon [of "''no colon''" "[(''boot'', ''aa'')]" "[]"]
    parse_line_one_colon [of "[]" "[]" "[''x'', ''boot: aa11'', '''', ''boot: cc'']"]
  by (simp add: parse_line_def remove_spaces_def setitem_dict_def Let_def)

text \<open>
  C3 as the specification states it fails at a line with a tab before the colon: the
  script keeps the tab in the partition name, the specification's parser removes it.
\<close>

theorem parse_line_tab_counterexample:
  "parse_line [] [CHR ''a'', CHR 0x09, CHR '':'', CHR ''b''] = [([CHR ''a'', CHR 0x09], ''b'')]
   \<and> parse_line_spec [] [CHR ''a'', CHR 0x09, CHR '':'', CHR ''b''] = [(''a'', ''b'')]
   \<and> parse_line [] [CHR ''a'', CHR 0x09, CHR '':'', CHR ''b'']
       \<noteq> parse_line_spec [] [CHR ''a'', CHR 0x09, CHR '':'', CHR ''b'']"
  by (simp add: parse_line_def parse_line_spec_def remove_spaces_def remove_whitespace_def
      is_whitespace_def setitem_dict_def Let_def)

subsection \<open>The fallback policy\<close>

lemma map_of_setitem_dict: "map_of (setitem_dict d k v) = (map_of d)(k \<mapsto> v)"
  by (simp add: setitem_dict_def update_conv')

lemma keys_setitem_dict: "keys (setitem_dict d k v) = insert k (keys d)"
  using dom_update [of k v d] by (simp add: setitem_dict_def keys_def)

lemma getitem_dict_setitem_dict:
  "getitem_dict (setitem_dict d k v) k' = (if k' = k then Inr v else getitem_dict d k')"
  by (simp add: getitem_dict_def map_of_setitem_dict)

lemma partition_names_distinct:
  "PARTITION_NAME_BOOT \<noteq> PARTITION_NAME_INITRD_NORMAL"
  "PARTITION_NAME_BOOT \<noteq> PARTITION_NAME_INITRD_DEBUG"
  "PARTITION_NAME_INITRD_NORMAL \<noteq> PARTITION_NAME_INITRD_DEBUG"
  by (simp_all add: partition_names)

lemma getitem_dict_fallback:
  assumes "fallback_taken hashes"
  shows "getitem_dict (fallback hashes) PARTITION_NAME_BOOT = Inr ''''"
    and "getitem_dict (fallback hashes) PARTITION_NAME_INITRD_NORMAL = Inr ''''"
    and "getitem_dict (fallback hashes) PARTITION_NAME_INITRD_DEBUG = Inr ''''"
  using assms partition_names_distinct
  by (simp_all add: fallback_def getitem_dict_setitem_dict)

text \<open>
  C1: when the keys of the collected dictionary are exactly \<^verbatim>\<open>boot\<close>,
  \<^verbatim>\<open>initrd_normal\<close> and \<^verbatim>\<open>initrd_debug\<close>, the branch of line 35 is not taken and the
  dictionary, with its three digests, stays as it is. For every other set of keys (none,
  one or two of the three, or other names) the branch is taken and each of the three
  expected keys is looked up as the empty string afterwards: all three, never only the
  missing ones.
\<close>

theorem fallback_all_or_nothing:
  "(keys hashes = expected_keys \<longrightarrow> \<not> fallback_taken hashes \<and> fallback hashes = hashes)
   \<and> (keys hashes \<noteq> expected_keys \<longrightarrow>
        fallback_taken hashes
        \<and> getitem_dict (fallback hashes) PARTITION_NAME_BOOT = Inr ''''
        \<and> getitem_dict (fallback hashes) PARTITION_NAME_INITRD_NORMAL = Inr ''''
        \<and> getitem_dict (fallback hashes) PARTITION_NAME_INITRD_DEBUG = Inr '''')"
proof (intro conjI impI)
  assume "keys hashes = expected_keys"
  then show "\<not> fallback_taken hashes" "fallback hashes = hashes"
    by (simp_all add: fallback_taken_def fallback_def)
next
  assume "keys hashes \<noteq> expected_keys"
  then show t: "fallback_taken hashes" by (simp add: fallback_taken_def)
  show "getitem_dict (fallback hashes) PARTITION_NAME_BOOT = Inr ''''"
    "getitem_dict (fallback hashes) PARTITION_NAME_INITRD_NORMAL = Inr ''''"
    "getitem_dict (fallback hashes) PARTITION_NAME_INITRD_DEBUG = Inr ''''"
    using getitem_dict_fallback [OF t] by simp_all
qed

lemma keys_three:
  "keys [(''boot'', ''aa11''), (''initrd_normal'', ''bb22''), (''initrd_debug'', ''cc33'')]
     = expected_keys"
  by (auto simp: keys_def expected_keys_def partition_names)

lemma keys_two:
  "keys [(''boot'', ''aa11''), (''initrd_debug'', ''cc33'')] \<noteq> expected_keys"
proof
  assume "keys [(''boot'', ''aa11''), (''initrd_debug'', ''cc33'')] = expected_keys"
  then have "''initrd_normal'' \<in> keys [(''boot'', ''aa11''), (''initrd_debug'', ''cc33'')]"
    by (simp add: expected_keys_def partition_names)
  then show False by (simp add: keys_def)
qed

text \<open>
  The theorem at a dictionary with the three partitions, which is kept, and at one with
  two of the three, whose two digests are both replaced by the empty string.
\<close>

theorem fallback_all_or_nothing_witness:
  "keys [(''boot'', ''aa11''), (''initrd_normal'', ''bb22''), (''initrd_debug'', ''cc33'')]
     = expected_keys
   \<and> fallback [(''boot'', ''aa11''), (''initrd_normal'', ''bb22''), (''initrd_debug'', ''cc33'')]
     = [(''boot'', ''aa11''), (''initrd_normal'', ''bb22''), (''initrd_debug'', ''cc33'')]
   \<and> keys [(''boot'', ''aa11''), (''initrd_debug'', ''cc33'')] \<noteq> expected_keys
   \<and> fallback [(''boot'', ''aa11''), (''initrd_debug'', ''cc33'')]
     = [(''boot'', ''''), (''initrd_debug'', ''''), (''initrd_normal'', '''')]
   \<and> getitem_dict (fallback [(''boot'', ''aa11''), (''initrd_debug'', ''cc33'')])
        PARTITION_NAME_BOOT = Inr ''''"
proof -
  have f: "fallback [(''boot'', ''aa11''), (''initrd_debug'', ''cc33'')]
     = [(''boot'', ''''), (''initrd_debug'', ''''), (''initrd_normal'', '''')]"
    using keys_two by (simp add: fallback_def fallback_taken_def setitem_dict_def partition_names)
  show ?thesis
    using fallback_all_or_nothing
            [of "[(''boot'', ''aa11''), (''initrd_normal'', ''bb22''), (''initrd_debug'', ''cc33'')]"]
          fallback_all_or_nothing [of "[(''boot'', ''aa11''), (''initrd_debug'', ''cc33'')]"]
          keys_three keys_two f
    by simp
qed

text \<open>
  C2 as the specification states it fails when the tool printed a line for another name:
  the three assignments of lines 39 to 41 add or overwrite the expected keys and delete
  nothing, so the unexpected key is still in the dictionary.
\<close>

theorem fallback_keeps_unexpected_counterexample:
  "fallback [(''vbmeta'', ''ab'')]
     = [(''vbmeta'', ''ab''), (''boot'', ''''), (''initrd_normal'', ''''), (''initrd_debug'', '''')]
   \<and> keys (fallback [(''vbmeta'', ''ab'')]) \<noteq> expected_keys"
proof -
  have k: "keys [(''vbmeta'', ''ab'')] \<noteq> expected_keys"
    by (auto simp: keys_def expected_keys_def partition_names)
  then have f: "fallback [(''vbmeta'', ''ab'')]
     = [(''vbmeta'', ''ab''), (''boot'', ''''), (''initrd_normal'', ''''), (''initrd_debug'', '''')]"
    by (simp add: fallback_def fallback_taken_def setitem_dict_def partition_names)
  have "''vbmeta'' \<in> keys (fallback [(''vbmeta'', ''ab'')])"
    unfolding f by (simp add: keys_def)
  moreover have "''vbmeta'' \<notin> expected_keys"
    by (simp add: expected_keys_def partition_names)
  ultimately have "keys (fallback [(''vbmeta'', ''ab'')]) \<noteq> expected_keys" by auto
  with f show ?thesis by simp
qed

text \<open>
  C2, as the script has it: after lines 35 to 41 the dictionary has all three expected
  keys. Its keys are exactly those three when the branch is not taken, and the keys of
  the input together with those three when it is: a key outside the three keeps its
  value. (\<^verbatim>\<open>main\<close> reads the three expected keys only.)
\<close>

theorem fallback_keys:
  "keys (fallback hashes) =
     (if keys hashes = expected_keys then expected_keys else keys hashes \<union> expected_keys)
   \<and> expected_keys \<subseteq> keys (fallback hashes)
   \<and> (\<forall>k. k \<notin> expected_keys \<longrightarrow> map_of (fallback hashes) k = map_of hashes k)"
proof (cases "keys hashes = expected_keys")
  case True
  then show ?thesis by (simp add: fallback_def fallback_taken_def)
next
  case False
  then have "keys (fallback hashes) = keys hashes \<union> expected_keys"
    by (auto simp: fallback_def fallback_taken_def keys_setitem_dict expected_keys_def)
  moreover have "map_of (fallback hashes) k = map_of hashes k" if "k \<notin> expected_keys" for k
    using that False
    by (simp add: fallback_def fallback_taken_def map_of_setitem_dict expected_keys_def)
  ultimately show ?thesis using False by auto
qed

text \<open>The theorem at the dictionary with the one key \<^verbatim>\<open>vbmeta\<close>.\<close>

theorem fallback_keys_witness:
  "''vbmeta'' \<notin> expected_keys
   \<and> keys [(''vbmeta'', ''ab'')] \<noteq> expected_keys
   \<and> keys (fallback [(''vbmeta'', ''ab'')]) = insert ''vbmeta'' expected_keys
   \<and> map_of (fallback [(''vbmeta'', ''ab'')]) ''vbmeta'' = Some ''ab''"
proof -
  have a: "''vbmeta'' \<notin> expected_keys"
    by (simp add: expected_keys_def partition_names)
  have k: "keys [(''vbmeta'', ''ab'')] = {''vbmeta''}" by (simp add: keys_def)
  have b: "keys [(''vbmeta'', ''ab'')] \<noteq> expected_keys"
    unfolding k by (auto simp: expected_keys_def partition_names)
  show ?thesis using fallback_keys [of "[(''vbmeta'', ''ab'')]"] a b k by simp
qed

subsection \<open>The emitter\<close>

lemma main_success:
  assumes "main args popen = (out, Inr ())"
  shows "\<exists>hashes h1 h2 h3 f1 f2 f3.
      collect_hashes popen (args ! 0) (args ! 1) = Inr hashes
    \<and> getitem_dict (fallback hashes) PARTITION_NAME_BOOT = Inr h1
    \<and> getitem_dict (fallback hashes) PARTITION_NAME_INITRD_NORMAL = Inr h2
    \<and> getitem_dict (fallback hashes) PARTITION_NAME_INITRD_DEBUG = Inr h3
    \<and> format_hex_string h1 = Inr f1
    \<and> format_hex_string h2 = Inr f2
    \<and> format_hex_string h3 = Inr f3
    \<and> out = header @ (if fallback_taken hashes then [empty_comment] else []) @
        [''pub const KERNEL_HASH: &[u8] = &['' @ f1 @ ''];\<newline>'',
         ''pub const INITRD_NORMAL_HASH: &[u8] = &['' @ f2 @ ''];\<newline>'',
         ''pub const INITRD_DEBUG_HASH: &[u8] = &['' @ f3 @ ''];'']"
  using assms
  by (auto simp: main_def getitem_list_def Let_def split: sum.splits if_splits)

text \<open>
  C9: when \<^verbatim>\<open>main\<close> ends without an exception, what it printed is the three header
  prints, then the comment that no hashes are available if and only if the branch of
  line 35 was taken, then exactly three declarations, of \<^verbatim>\<open>KERNEL_HASH\<close>,
  \<^verbatim>\<open>INITRD_NORMAL_HASH\<close> and \<^verbatim>\<open>INITRD_DEBUG_HASH\<close> in this order, whether or not
  digests were found; after the fallback the three arrays are empty. Output is taken as
  the sequence of the arguments of the \<^verbatim>\<open>print\<close> calls.
\<close>

theorem main_three_constants:
  assumes "main args popen = (out, Inr ())"
  shows "\<exists>hashes f1 f2 f3.
      collect_hashes popen (args ! 0) (args ! 1) = Inr hashes
    \<and> out = header @ (if fallback_taken hashes then [empty_comment] else []) @
        [''pub const KERNEL_HASH: &[u8] = &['' @ f1 @ ''];\<newline>'',
         ''pub const INITRD_NORMAL_HASH: &[u8] = &['' @ f2 @ ''];\<newline>'',
         ''pub const INITRD_DEBUG_HASH: &[u8] = &['' @ f3 @ ''];'']
    \<and> filter (\<lambda>s. take 10 s = ''pub const '') out =
        [''pub const KERNEL_HASH: &[u8] = &['' @ f1 @ ''];\<newline>'',
         ''pub const INITRD_NORMAL_HASH: &[u8] = &['' @ f2 @ ''];\<newline>'',
         ''pub const INITRD_DEBUG_HASH: &[u8] = &['' @ f3 @ ''];'']
    \<and> (empty_comment \<in> set out) = fallback_taken hashes
    \<and> (fallback_taken hashes \<longrightarrow> f1 = '''' \<and> f2 = '''' \<and> f3 = '''')"
proof -
  from main_success [OF assms] obtain hashes h1 h2 h3 f1 f2 f3 where
    c: "collect_hashes popen (args ! 0) (args ! 1) = Inr hashes"
    and g: "getitem_dict (fallback hashes) PARTITION_NAME_BOOT = Inr h1"
      "getitem_dict (fallback hashes) PARTITION_NAME_INITRD_NORMAL = Inr h2"
      "getitem_dict (fallback hashes) PARTITION_NAME_INITRD_DEBUG = Inr h3"
    and f: "format_hex_string h1 = Inr f1" "format_hex_string h2 = Inr f2"
      "format_hex_string h3 = Inr f3"
    and o: "out = header @ (if fallback_taken hashes then [empty_comment] else []) @
        [''pub const KERNEL_HASH: &[u8] = &['' @ f1 @ ''];\<newline>'',
         ''pub const INITRD_NORMAL_HASH: &[u8] = &['' @ f2 @ ''];\<newline>'',
         ''pub const INITRD_DEBUG_HASH: &[u8] = &['' @ f3 @ ''];'']"
    by blast
  have flt: "filter (\<lambda>s. take 10 s = ''pub const '') out =
        [''pub const KERNEL_HASH: &[u8] = &['' @ f1 @ ''];\<newline>'',
         ''pub const INITRD_NORMAL_HASH: &[u8] = &['' @ f2 @ ''];\<newline>'',
         ''pub const INITRD_DEBUG_HASH: &[u8] = &['' @ f3 @ ''];'']"
    unfolding o by (simp add: header_def empty_comment_def)
  have mem: "(empty_comment \<in> set out) = fallback_taken hashes"
    unfolding o by (simp add: header_def empty_comment_def)
  have emp: "f1 = '''' \<and> f2 = '''' \<and> f3 = ''''" if t: "fallback_taken hashes"
  proof -
    have "h1 = ''''" "h2 = ''''" "h3 = ''''"
      using g getitem_dict_fallback [OF t] by simp_all
    then show ?thesis using f by (simp add: format_hex_string_def range_step.simps)
  qed
  show ?thesis using c o flt mem emp by blast
qed

lemma main_three_digests:
  "main [''avbtool'', ''kernel.img'']
     (\<lambda>argv. Exited 0
        (Some ''boot: aa11\<newline>initrd_normal: bb22\<newline>initrd_debug: cc33\<newline>''))
   = (header @
       [''pub const KERNEL_HASH: &[u8] = &[\<newline>0xaa, 0x11];\<newline>'',
        ''pub const INITRD_NORMAL_HASH: &[u8] = &[\<newline>0xbb, 0x22];\<newline>'',
        ''pub const INITRD_DEBUG_HASH: &[u8] = &[\<newline>0xcc, 0x33];''],
      Inr ())"
  by code_simp

lemma main_tool_error:
  "main [''avbtool'', ''kernel.img'']
     (\<lambda>argv. Exited 1 (Some ''avbtool: Given image does not look like a vbmeta image.\<newline>''))
   = (header @
       [empty_comment,
        ''pub const KERNEL_HASH: &[u8] = &[];\<newline>'',
        ''pub const INITRD_NORMAL_HASH: &[u8] = &[];\<newline>'',
        ''pub const INITRD_DEBUG_HASH: &[u8] = &[];''],
      Inr ())"
  by code_simp

text \<open>
  The theorem at two runs that succeed: the tool prints the three digests (no comment),
  and the tool prints an error message only (comment and three empty arrays).
\<close>

theorem main_three_constants_witness:
  "main [''avbtool'', ''kernel.img'']
     (\<lambda>argv. Exited 0
        (Some ''boot: aa11\<newline>initrd_normal: bb22\<newline>initrd_debug: cc33\<newline>''))
   = (header @
       [''pub const KERNEL_HASH: &[u8] = &[\<newline>0xaa, 0x11];\<newline>'',
        ''pub const INITRD_NORMAL_HASH: &[u8] = &[\<newline>0xbb, 0x22];\<newline>'',
        ''pub const INITRD_DEBUG_HASH: &[u8] = &[\<newline>0xcc, 0x33];''],
      Inr ())
   \<and> empty_comment \<notin> set (header @
       [''pub const KERNEL_HASH: &[u8] = &[\<newline>0xaa, 0x11];\<newline>'',
        ''pub const INITRD_NORMAL_HASH: &[u8] = &[\<newline>0xbb, 0x22];\<newline>'',
        ''pub const INITRD_DEBUG_HASH: &[u8] = &[\<newline>0xcc, 0x33];''])
   \<and> main [''avbtool'', ''kernel.img'']
     (\<lambda>argv. Exited 1 (Some ''avbtool: Given image does not look like a vbmeta image.\<newline>''))
   = (header @
       [empty_comment,
        ''pub const KERNEL_HASH: &[u8] = &[];\<newline>'',
        ''pub const INITRD_NORMAL_HASH: &[u8] = &[];\<newline>'',
        ''pub const INITRD_DEBUG_HASH: &[u8] = &[];''],
      Inr ())"
  using main_three_constants [OF main_three_digests] main_three_constants [OF main_tool_error]
    main_three_digests main_tool_error
  by (simp add: header_def empty_comment_def)

subsection \<open>Failures of the child process\<close>

text \<open>
  C4 as the specification states it fails when the tool runs and exits with a status
  other than 0: the return code is never read, the text the tool wrote is parsed as
  usual, and here the run ends with exit status 0 and a generated file.
\<close>

theorem nonzero_exit_absorbed_counterexample:
  "main [''avbtool'', ''kernel.img'']
     (\<lambda>argv. Exited 1 (Some ''avbtool: Given image does not look like a vbmeta image.\<newline>''))
   = (header @
       [empty_comment,
        ''pub const KERNEL_HASH: &[u8] = &[];\<newline>'',
        ''pub const INITRD_NORMAL_HASH: &[u8] = &[];\<newline>'',
        ''pub const INITRD_DEBUG_HASH: &[u8] = &[];''],
      Inr ())
   \<and> exit_status (snd (main [''avbtool'', ''kernel.img'']
        (\<lambda>argv. Exited 1
           (Some ''avbtool: Given image does not look like a vbmeta image.\<newline>'')))) = 0
   \<and> stdout_text (fst (main [''avbtool'', ''kernel.img'']
        (\<lambda>argv. Exited 1
           (Some ''avbtool: Given image does not look like a vbmeta image.\<newline>'')))) \<noteq> ''''"
  unfolding main_tool_error
  by (simp add: exit_status_def stdout_text_def header_def)

text \<open>
  C4, as the script has it: when the tool cannot be started, \<^verbatim>\<open>main\<close> ends in the
  \<^verbatim>\<open>OSError\<close> of \<^verbatim>\<open>Popen\<close> with nothing printed, and the interpreter exits with status 1.
  When the tool has run, its return code does not matter: two runs whose tools wrote the
  same text behave alike, whatever the two return codes are.
\<close>

theorem launch_failure_fatal:
  "(2 \<le> length args
      \<and> popen [args ! 0, ''print_partition_digests'', ''--image'', args ! 1] = LaunchFailed
     \<longrightarrow> main args popen = ([], Inl OSError)
        \<and> exit_status (snd (main args popen)) = 1
        \<and> stdout_text (fst (main args popen)) = '''')
   \<and> (popen [args ! 0, ''print_partition_digests'', ''--image'', args ! 1]
          = Exited returncode stdout
      \<and> popen' [args ! 0, ''print_partition_digests'', ''--image'', args ! 1]
          = Exited returncode' stdout
     \<longrightarrow> main args popen = main args popen')"
proof (intro conjI impI)
  assume a: "2 \<le> length args
      \<and> popen [args ! 0, ''print_partition_digests'', ''--image'', args ! 1] = LaunchFailed"
  then have l: "0 < length args" "1 < length args" by auto
  from a have "collect_hashes popen (args ! 0) (args ! 1) = Inl OSError"
    by (simp add: collect_hashes_def)
  with l show m: "main args popen = ([], Inl OSError)"
    by (simp add: main_def getitem_list_def)
  show "exit_status (snd (main args popen)) = 1" "stdout_text (fst (main args popen)) = ''''"
    unfolding m by (simp_all add: exit_status_def stdout_text_def)
next
  assume "popen [args ! 0, ''print_partition_digests'', ''--image'', args ! 1]
          = Exited returncode stdout
      \<and> popen' [args ! 0, ''print_partition_digests'', ''--image'', args ! 1]
          = Exited returncode' stdout"
  then have "collect_hashes popen (args ! 0) (args ! 1) = collect_hashes popen' (args ! 0) (args ! 1)"
    by (simp add: collect_hashes_def)
  then show "main args popen = main args popen'"
    by (simp add: main_def getitem_list_def)
qed

text \<open>The theorem at a tool that cannot be started, and at the return codes 1 and 0.\<close>

theorem launch_failure_fatal_witness:
  "2 \<le> length [''avbtool'', ''kernel.img'']
   \<and> main [''avbtool'', ''kernel.img''] (\<lambda>argv. LaunchFailed) = ([], Inl OSError)
   \<and> exit_status (snd (main [''avbtool'', ''kernel.img''] (\<lambda>argv. LaunchFailed))) = 1
   \<and> main [''avbtool'', ''kernel.img''] (\<lambda>argv. Exited 1 (Some ''boot: aa''))
     = main [''avbtool'', ''kernel.img''] (\<lambda>argv. Exited 0 (Some ''boot: aa''))"
  using launch_failure_fatal [of "[''avbtool'', ''kernel.img'']" "\<lambda>argv. LaunchFailed"]
    launch_failure_fatal [of "[''avbtool'', ''kernel.img'']"
      "\<lambda>argv. Exited 1 (Some ''boot: aa'')" 1 "Some ''boot: aa''"
      "\<lambda>argv. Exited 0 (Some ''boot: aa'')" 0]
  by (simp add: exit_status_def)

end
